theory Spec2Isabelle
  imports Main
begin

section \<open>Python values, exceptions and iterators\<close>

text \<open>
  The program is Python 2 (\<^verbatim>\<open>file(...)\<close>, \<^verbatim>\<open>str.lstrip\<close> on the response body), so
  a \<^verbatim>\<open>str\<close> is a byte string: \<^typ>\<open>string\<close>. Every exception the two functions can
  raise is a value of \<open>error\<close>; a function that may raise returns \<open>error + 'a\<close>.
\<close>

datatype error =
    RequestException string
  | HTTPError int
  | IndexError
  | UnboundLocalError string
  | CsvError string
  | KeyError string
  | TypeError nat
  | OverflowError string
  | SocketError string

text \<open>
  An iterator that is consumed by a \<^verbatim>\<open>for\<close> loop: it yields finitely many items and then
  either stops or raises. \<^verbatim>\<open>csv.DictReader\<close> is lazy, so an error of the CSV parser is
  raised inside the loop that consumes the records, after the earlier records were handled.
\<close>

datatype 'a iter = Stop | Raise error | Yield 'a "'a iter"

fun iter_of_list :: "'a list \<Rightarrow> 'a iter" where
  "iter_of_list [] = Stop"
| "iter_of_list (x # xs) = Yield x (iter_of_list xs)"

fun yielded :: "'a iter \<Rightarrow> 'a list" where
  "yielded Stop = []"
| "yielded (Raise e) = []"
| "yielded (Yield x it) = x # yielded it"

text \<open>How the iteration ends: \<open>None\<close> when the iterator stops, the exception when it raises.\<close>

fun raised :: "'a iter \<Rightarrow> error option" where
  "raised Stop = None"
| "raised (Raise e) = Some e"
| "raised (Yield x it) = raised it"

datatype pyval = PStr string | PInt int

fun dec :: "nat \<Rightarrow> string" where
  "dec n = (if n < 10 then [''0123456789'' ! n]
            else dec (n div 10) @ [''0123456789'' ! (n mod 10)])"

declare dec.simps [simp del]

text \<open>What \<^verbatim>\<open>'%s' % v\<close> prints for a \<^verbatim>\<open>str\<close> and for an \<^verbatim>\<open>int\<close>.\<close>

fun py_str :: "pyval \<Rightarrow> string" where
  "py_str (PStr s) = s"
| "py_str (PInt i) = (if i < 0 then ''-'' @ dec (nat (- i)) else dec (nat i))"

section \<open>Library functions used by the Fetcher\<close>

subsection \<open>\<^verbatim>\<open>str.splitlines\<close> and \<^verbatim>\<open>str.lstrip\<close>\<close>

text \<open>
  \<^verbatim>\<open>str.splitlines()\<close> of Python 2 breaks at \<^verbatim>\<open>\n\<close>, \<^verbatim>\<open>\r\<close> and \<^verbatim>\<open>\r\n\<close>, drops the
  line ends, and yields no empty last line after a final line end. \<open>cur\<close> is the line
  read so far.
\<close>

function split_from :: "string \<Rightarrow> string \<Rightarrow> string list" where
  "split_from cur [] = (if cur = [] then [] else [cur])"
| "split_from cur (c # cs) =
     (if c = CHR 0x0A then cur # split_from [] cs
      else if c = CHR 0x0D then
        cur # split_from [] (case cs of [] \<Rightarrow> [] | d # ds \<Rightarrow> if d = CHR 0x0A then ds else cs)
      else split_from (cur @ [c]) cs)"
  by pat_completeness auto
termination
  by (relation "measure (\<lambda>(cur, s). length s)") (auto split: list.splits)

definition splitlines :: "string \<Rightarrow> string list" where
  "splitlines s = split_from [] s"

text \<open>\<^verbatim>\<open>s.lstrip(chars)\<close> removes every leading character that occurs in \<open>chars\<close>.\<close>

definition lstrip :: "string \<Rightarrow> string \<Rightarrow> string" where
  "lstrip chars s = dropWhile (\<lambda>c. c \<in> set chars) s"

subsection \<open>\<^verbatim>\<open>csv.reader\<close> with the default dialect\<close>

text \<open>
  The parser of CPython 2.7's \<^verbatim>\<open>_csv\<close> module for the dialect \<^verbatim>\<open>excel\<close>: delimiter
  \<^verbatim>\<open>,\<close>, quote character \<^verbatim>\<open>"\<close>, \<^verbatim>\<open>doublequote\<close>, not \<^verbatim>\<open>strict\<close>, no escape character
  (so the two escape states of the C code do not occur). The end of a line is signalled to
  the state machine by the character 0, as in the C code.
\<close>

datatype parser_state =
  START_RECORD | START_FIELD | IN_FIELD | IN_QUOTED_FIELD | QUOTE_IN_QUOTED_FIELD | EAT_CRNL

record reader =
  rd_state :: parser_state
  rd_fields :: "string list"
  rd_field :: string

definition field_limit :: nat where
  "field_limit = 131072"

definition parse_reset :: reader where
  "parse_reset = \<lparr>rd_state = START_RECORD, rd_fields = [], rd_field = []\<rparr>"

definition parse_save_field :: "reader \<Rightarrow> reader" where
  "parse_save_field p = p\<lparr>rd_fields := rd_fields p @ [rd_field p], rd_field := []\<rparr>"

definition parse_add_char :: "reader \<Rightarrow> char \<Rightarrow> error + reader" where
  "parse_add_char p c =
     (if field_limit \<le> length (rd_field p)
      then Inl (CsvError ''field larger than field limit (131072)'')
      else Inr (p\<lparr>rd_field := rd_field p @ [c]\<rparr>))"

definition end_of_line :: "char \<Rightarrow> parser_state" where
  "end_of_line c = (if c = CHR 0x00 then START_RECORD else EAT_CRNL)"

definition is_eol :: "char \<Rightarrow> bool" where
  "is_eol c = (c = CHR 0x0A \<or> c = CHR 0x0D \<or> c = CHR 0x00)"

definition with_state :: "parser_state \<Rightarrow> error + reader \<Rightarrow> error + reader" where
  "with_state s r = (case r of Inl e \<Rightarrow> Inl e | Inr p \<Rightarrow> Inr (p\<lparr>rd_state := s\<rparr>))"

definition start_field :: "reader \<Rightarrow> char \<Rightarrow> error + reader" where
  "start_field p c =
     (if is_eol c then Inr ((parse_save_field p)\<lparr>rd_state := end_of_line c\<rparr>)
      else if c = CHR 0x22 then Inr (p\<lparr>rd_state := IN_QUOTED_FIELD\<rparr>)
      else if c = CHR '','' then Inr ((parse_save_field p)\<lparr>rd_state := START_FIELD\<rparr>)
      else with_state IN_FIELD (parse_add_char p c))"

definition parse_process_char :: "reader \<Rightarrow> char \<Rightarrow> error + reader" where
  "parse_process_char p c =
     (case rd_state p of
        START_RECORD \<Rightarrow>
          (if c = CHR 0x00 then Inr p
           else if c = CHR 0x0A \<or> c = CHR 0x0D then Inr (p\<lparr>rd_state := EAT_CRNL\<rparr>)
           else start_field p c)
      | START_FIELD \<Rightarrow> start_field p c
      | IN_FIELD \<Rightarrow>
          (if is_eol c then Inr ((parse_save_field p)\<lparr>rd_state := end_of_line c\<rparr>)
           else if c = CHR '','' then Inr ((parse_save_field p)\<lparr>rd_state := START_FIELD\<rparr>)
           else parse_add_char p c)
      | IN_QUOTED_FIELD \<Rightarrow>
          (if c = CHR 0x00 then Inr p
           else if c = CHR 0x22 then Inr (p\<lparr>rd_state := QUOTE_IN_QUOTED_FIELD\<rparr>)
           else parse_add_char p c)
      | QUOTE_IN_QUOTED_FIELD \<Rightarrow>
          (if c = CHR 0x22 then with_state IN_QUOTED_FIELD (parse_add_char p c)
           else if c = CHR '','' then Inr ((parse_save_field p)\<lparr>rd_state := START_FIELD\<rparr>)
           else if is_eol c then Inr ((parse_save_field p)\<lparr>rd_state := end_of_line c\<rparr>)
           else with_state IN_FIELD (parse_add_char p c))
      | EAT_CRNL \<Rightarrow>
          (if c = CHR 0x0A \<or> c = CHR 0x0D then Inr p
           else if c = CHR 0x00 then Inr (p\<lparr>rd_state := START_RECORD\<rparr>)
           else Inl (CsvError ''new-line character seen in unquoted field - do you need to open the file in universal-newline mode?'')))"

text \<open>
  One line of input: every character goes through the state machine (a 0 byte in the
  line is an error), then the end of the line is signalled.
\<close>

fun parse_line :: "reader \<Rightarrow> string \<Rightarrow> error + reader" where
  "parse_line p [] = parse_process_char p (CHR 0x00)"
| "parse_line p (c # cs) =
     (if c = CHR 0x00 then Inl (CsvError ''line contains NULL byte'')
      else (case parse_process_char p c of
              Inl e \<Rightarrow> Inl e
            | Inr p' \<Rightarrow> parse_line p' cs))"

text \<open>
  The rows the reader yields over a list of lines. A row is complete when the state machine
  is back in \<open>START_RECORD\<close> at the end of a line; otherwise the next line continues the row.
  At the end of the input an open field is closed and the row is yielded.
\<close>

fun reader_rows :: "reader \<Rightarrow> string list \<Rightarrow> string list iter" where
  "reader_rows p [] =
     (if rd_field p \<noteq> [] \<or> rd_state p = IN_QUOTED_FIELD
      then Yield (rd_fields (parse_save_field p)) Stop
      else Stop)"
| "reader_rows p (l # ls) =
     (case parse_line p l of
        Inl e \<Rightarrow> Raise e
      | Inr p' \<Rightarrow>
          if rd_state p' = START_RECORD
          then Yield (rd_fields p') (reader_rows parse_reset ls)
          else reader_rows p' ls)"

definition csv_reader :: "string list \<Rightarrow> string list iter" where
  "csv_reader lines = reader_rows parse_reset lines"

subsection \<open>\<^verbatim>\<open>csv.DictReader\<close>\<close>

text \<open>
  A record of \<^verbatim>\<open>csv.DictReader\<close>: a \<^verbatim>\<open>dict\<close> whose keys are the field names, with the
  value \<^verbatim>\<open>None\<close> (\<open>restval\<close>) where the row is shorter than the header, and the key
  \<^verbatim>\<open>None\<close> (\<open>restkey\<close>) holding the surplus fields where the row is longer. \<open>cols\<close> is
  the part of the dict under string keys (the value \<open>None\<close> is Python's \<^verbatim>\<open>None\<close>),
  \<open>rest\<close> the entry under the key \<^verbatim>\<open>None\<close>.
\<close>

record stat_row =
  cols :: "string \<rightharpoonup> string option"
  rest :: "string list option"

definition dict_zip :: "string list \<Rightarrow> string list \<Rightarrow> (string \<rightharpoonup> string option)" where
  "dict_zip fieldnames row = map_option Some \<circ> map_of (rev (zip fieldnames row))"

definition make_row :: "string list \<Rightarrow> string list \<Rightarrow> stat_row" where
  "make_row fieldnames row =
     (let d = dict_zip fieldnames row;
          lf = length fieldnames;
          lr = length row
      in if lf < lr then \<lparr>cols = d, rest = Some (drop lf row)\<rparr>
         else if lr < lf then \<lparr>cols = fold (\<lambda>key m. m(key \<mapsto> None)) (drop lr fieldnames) d, rest = None\<rparr>
         else \<lparr>cols = d, rest = None\<rparr>)"

text \<open>Empty rows are not turned into records.\<close>

fun dict_rows :: "string list \<Rightarrow> string list iter \<Rightarrow> stat_row iter" where
  "dict_rows fieldnames Stop = Stop"
| "dict_rows fieldnames (Raise e) = Raise e"
| "dict_rows fieldnames (Yield row it) =
     (if row = [] then dict_rows fieldnames it
      else Yield (make_row fieldnames row) (dict_rows fieldnames it))"

text \<open>The first row of the reader is the list of field names.\<close>

definition DictReader :: "string list \<Rightarrow> stat_row iter" where
  "DictReader lines =
     (case csv_reader lines of
        Stop \<Rightarrow> Stop
      | Raise e \<Rightarrow> Raise e
      | Yield fieldnames it \<Rightarrow> dict_rows fieldnames it)"

subsection \<open>\<^verbatim>\<open>requests\<close>\<close>

text \<open>
  The network is the environment of the program: \<open>net u auth\<close> is what
  \<^verbatim>\<open>requests.get(u, auth=auth)\<close> does, a transport error or a response. Within one call
  of the Fetcher the same request has the same answer.
\<close>

record response =
  status_code :: int
  content :: string

type_synonym auth = "string \<times> string option"

type_synonym network = "string \<Rightarrow> auth option \<Rightarrow> error + response"

text \<open>\<^verbatim>\<open>Response.raise_for_status()\<close> raises for the client and server error codes.\<close>

definition raise_for_status :: "response \<Rightarrow> error + unit" where
  "raise_for_status r =
     (if 400 \<le> status_code r \<and> status_code r < 600 then Inl (HTTPError (status_code r))
      else Inr ())"

section \<open>Stats Fetcher: \<^verbatim>\<open>get_haproxy_report\<close>\<close>

text \<open>The argument \<open>url\<close> is a \<^verbatim>\<open>str\<close> or a list of \<^verbatim>\<open>str\<close>.\<close>

datatype url_arg = UrlStr string | UrlList "string list"

text \<open>
  The loop over the endpoints. Its state is the list \<open>aggregated\<close> and the variable
  \<open>header\<close>, unbound (\<open>None\<close>) until the first iteration has assigned it.
\<close>

fun fetch_loop ::
  "network \<Rightarrow> auth option \<Rightarrow> string list \<Rightarrow> string list \<times> string option
     \<Rightarrow> error + (string list \<times> string option)" where
  "fetch_loop net auth [] st = Inr st"
| "fetch_loop net auth (u # us) (aggregated, header) =
     (case net u auth of
        Inl e \<Rightarrow> Inl e
      | Inr r \<Rightarrow>
          (case raise_for_status r of
             Inl e \<Rightarrow> Inl e
           | Inr _ \<Rightarrow>
               (case splitlines (content r) of
                  [] \<Rightarrow> Inl IndexError
                | l # lines \<Rightarrow>
                    fetch_loop net auth us (aggregated @ lines, Some (lstrip ''# '' l)))))"

definition make_auth :: "string option \<Rightarrow> string option \<Rightarrow> auth option" where
  "make_auth user password =
     (case user of
        None \<Rightarrow> None
      | Some u \<Rightarrow> if u = [] then None else Some (u, password))"

definition get_haproxy_report ::
  "network \<Rightarrow> url_arg \<Rightarrow> string option \<Rightarrow> string option \<Rightarrow> error + stat_row iter" where
  "get_haproxy_report net url user password =
     (let urls = (case url of UrlStr s \<Rightarrow> [s] | UrlList us \<Rightarrow> us);
          auth = make_auth user password
      in case fetch_loop net auth urls ([], None) of
           Inl e \<Rightarrow> Inl e
         | Inr (aggregated, None) \<Rightarrow> Inl (UnboundLocalError ''header'')
         | Inr (aggregated, Some header) \<Rightarrow> Inr (DictReader (header # aggregated)))"

section \<open>Stats Reporter: \<^verbatim>\<open>report_to_statsd\<close>\<close>

definition STATS :: "string list" where
  "STATS = [''scur'', ''smax'', ''ereq'', ''econ'', ''rate'', ''bin'', ''bout'',
            ''hrsp_1xx'', ''hrsp_2xx'', ''hrsp_3xx'', ''hrsp_4xx'', ''hrsp_5xx'',
            ''qtime'', ''ctime'', ''rtime'', ''ttime'']"

text \<open>
  \<^verbatim>\<open>sep.join(items)\<close>: every item must be a \<^verbatim>\<open>str\<close>; the first item that is \<^verbatim>\<open>None\<close>
  raises a \<^verbatim>\<open>TypeError\<close> naming its position.
\<close>

fun check_items :: "nat \<Rightarrow> string option list \<Rightarrow> error + string list" where
  "check_items i [] = Inr []"
| "check_items i (None # xs) = Inl (TypeError i)"
| "check_items i (Some s # xs) =
     (case check_items (Suc i) xs of Inl e \<Rightarrow> Inl e | Inr ss \<Rightarrow> Inr (s # ss))"

fun concat_with :: "string \<Rightarrow> string list \<Rightarrow> string" where
  "concat_with sep [] = []"
| "concat_with sep [s] = s"
| "concat_with sep (s # t # ss) = s @ sep @ concat_with sep (t # ss)"

definition str_join :: "string \<Rightarrow> string option list \<Rightarrow> error + string" where
  "str_join sep items =
     (case check_items 0 items of Inl e \<Rightarrow> Inl e | Inr ss \<Rightarrow> Inr (concat_with sep ss))"

text \<open>\<^verbatim>\<open>row.get(stat) or 0\<close>: the stored string, or the integer 0 for a missing key,
  \<^verbatim>\<open>None\<close> or the empty string.\<close>

definition stat_val :: "stat_row \<Rightarrow> string \<Rightarrow> pyval" where
  "stat_val row stat =
     (case cols row stat of
        None \<Rightarrow> PInt 0
      | Some None \<Rightarrow> PInt 0
      | Some (Some s) \<Rightarrow> if s = [] then PInt 0 else PStr s)"

text \<open>\<^verbatim>\<open>'%s.%s:%s|g' % (path, stat, val)\<close>\<close>

definition gauge_line :: "string \<Rightarrow> string \<Rightarrow> pyval \<Rightarrow> string" where
  "gauge_line path stat val = path @ ''.'' @ stat @ '':'' @ py_str val @ ''|g''"

text \<open>
  A datagram handed to the network: the payload and the address \<open>(host, port)\<close>. The
  socket is the list of the datagrams sent so far. \<^verbatim>\<open>udp_sock.sendto(data, (host, port))\<close>
  raises \<^verbatim>\<open>OverflowError\<close> for a port outside 0 to 65535, before anything is sent, and
  \<^verbatim>\<open>socket.error\<close> for a payload that does not fit into one UDP datagram over IPv4 (more
  than 65507 bytes); otherwise the datagram is sent. The host is taken to be an address
  the socket accepts.
\<close>

type_synonym datagram = "string \<times> (string \<times> int)"

definition max_payload :: nat where
  "max_payload = 65507"

definition sendto :: "datagram list \<Rightarrow> string \<Rightarrow> string \<times> int \<Rightarrow> error + datagram list" where
  "sendto udp_sock data address =
     (if snd address < 0 \<or> 65535 < snd address
      then Inl (OverflowError ''getsockaddrarg: port must be 0-65535.'')
      else if max_payload < length data then Inl (SocketError ''Message too long'')
      else Inr (udp_sock @ [(data, address)]))"

text \<open>
  The inner loop over the tracked fields. The result is the datagrams sent so far and
  either the exception of a send or the count after the loop.
\<close>

fun send_stats ::
  "string \<Rightarrow> int \<Rightarrow> string \<Rightarrow> stat_row \<Rightarrow> string list \<Rightarrow> datagram list \<times> int
     \<Rightarrow> datagram list \<times> (error + int)" where
  "send_stats host port path row [] (udp_sock, stat_count) = (udp_sock, Inr stat_count)"
| "send_stats host port path row (stat # stats) (udp_sock, stat_count) =
     (case sendto udp_sock (gauge_line path stat (stat_val row stat)) (host, port) of
        Inl e \<Rightarrow> (udp_sock, Inl e)
      | Inr udp_sock' \<Rightarrow> send_stats host port path row stats (udp_sock', stat_count + 1))"

text \<open>The body of the loop over the rows: the datagrams sent so far, and the exception
  raised or the count after the row (unchanged where the row is skipped by \<^verbatim>\<open>continue\<close>).\<close>

definition report_row ::
  "string \<Rightarrow> int \<Rightarrow> string \<Rightarrow> bool \<Rightarrow> stat_row \<Rightarrow> datagram list \<times> int
     \<Rightarrow> datagram list \<times> (error + int)" where
  "report_row host port namespace excludeproxies row st =
     (case cols row ''svname'' of
        None \<Rightarrow> (fst st, Inl (KeyError ''svname''))
      | Some svname \<Rightarrow>
          if \<not> (svname \<in> set [Some ''BACKEND'', Some ''FRONTEND'']) \<and> excludeproxies
          then (fst st, Inr (snd st))
          else (case cols row ''pxname'' of
                  None \<Rightarrow> (fst st, Inl (KeyError ''pxname''))
                | Some pxname \<Rightarrow>
                    (case str_join ''.'' [Some namespace, pxname, svname] of
                       Inl e \<Rightarrow> (fst st, Inl e)
                     | Inr path \<Rightarrow> send_stats host port path row STATS st)))"

text \<open>The loop over \<open>stat_rows\<close>: the datagrams sent, and the exception raised or the
  count returned.\<close>

fun report_loop ::
  "string \<Rightarrow> int \<Rightarrow> string \<Rightarrow> bool \<Rightarrow> stat_row iter \<Rightarrow> datagram list \<times> int
     \<Rightarrow> datagram list \<times> (error + int)" where
  "report_loop host port namespace excludeproxies Stop (udp_sock, stat_count) =
     (udp_sock, Inr stat_count)"
| "report_loop host port namespace excludeproxies (Raise e) (udp_sock, stat_count) =
     (udp_sock, Inl e)"
| "report_loop host port namespace excludeproxies (Yield row it) (udp_sock, stat_count) =
     (case report_row host port namespace excludeproxies row (udp_sock, stat_count) of
        (udp_sock', Inl e) \<Rightarrow> (udp_sock', Inl e)
      | (udp_sock', Inr stat_count') \<Rightarrow>
          report_loop host port namespace excludeproxies it (udp_sock', stat_count'))"

definition report_to_statsd ::
  "stat_row iter \<Rightarrow> string \<Rightarrow> int \<Rightarrow> string \<Rightarrow> bool \<Rightarrow> datagram list \<times> (error + int)" where
  "report_to_statsd stat_rows host port namespace excludeproxies =
     report_loop host port namespace excludeproxies stat_rows ([], 0)"

section \<open>One polling cycle of the main loop\<close>

text \<open>
  Lines 112 to 124: fetch, report, print. The result is the list of datagrams sent and
  the exception that ends the cycle or the line printed.
\<close>

definition poll_once ::
  "network \<Rightarrow> url_arg \<Rightarrow> string option \<Rightarrow> string option \<Rightarrow> string \<Rightarrow> int \<Rightarrow> string \<Rightarrow> bool
     \<Rightarrow> datagram list \<times> (error + string)" where
  "poll_once net url user password host port namespace excludeproxies =
     (case get_haproxy_report net url user password of
        Inl e \<Rightarrow> ([], Inl e)
      | Inr report_data \<Rightarrow>
          (case report_to_statsd report_data host port namespace excludeproxies of
             (sent, Inl e) \<Rightarrow> (sent, Inl e)
           | (sent, Inr report_num) \<Rightarrow>
               (sent, Inr (''Reported '' @ py_str (PInt report_num) @ '' stats''))))"

section \<open>Notions used to state the properties\<close>

text \<open>
  A record passes the proxy filter when it is a \<^verbatim>\<open>BACKEND\<close> or \<^verbatim>\<open>FRONTEND\<close> row or
  the flag is off. \<open>processable\<close> says that the names of a record can be read: the key
  \<^verbatim>\<open>svname\<close> is there, and a record that passes the filter has strings under \<^verbatim>\<open>pxname\<close>
  and \<^verbatim>\<open>svname\<close>. \<open>gauge_of\<close> is the datagram expected for one tracked field of a record.
  \<open>sendable\<close> says that the socket takes the 16 datagrams of a record: the port is a
  port number and no payload is longer than a datagram. \<open>reportable\<close> is the condition
  under which the loop body does not raise: the record is processable and, if it passes
  the filter, sendable.
\<close>

definition passes_filter :: "bool \<Rightarrow> stat_row \<Rightarrow> bool" where
  "passes_filter excludeproxies row =
     (cols row ''svname'' = Some (Some ''BACKEND'') \<or> cols row ''svname'' = Some (Some ''FRONTEND'')
      \<or> \<not> excludeproxies)"

definition has_str :: "stat_row \<Rightarrow> string \<Rightarrow> bool" where
  "has_str row k = (case cols row k of Some (Some s) \<Rightarrow> True | _ \<Rightarrow> False)"

definition str_at :: "stat_row \<Rightarrow> string \<Rightarrow> string" where
  "str_at row k = (case cols row k of Some (Some s) \<Rightarrow> s | _ \<Rightarrow> [])"

definition processable :: "bool \<Rightarrow> stat_row \<Rightarrow> bool" where
  "processable excludeproxies row =
     (cols row ''svname'' \<noteq> None \<and>
      (passes_filter excludeproxies row \<longrightarrow> has_str row ''pxname'' \<and> has_str row ''svname''))"

definition value_text :: "stat_row \<Rightarrow> string \<Rightarrow> string" where
  "value_text row stat =
     (case cols row stat of Some (Some s) \<Rightarrow> if s = [] then ''0'' else s | _ \<Rightarrow> ''0'')"

definition gauge_of :: "string \<Rightarrow> int \<Rightarrow> string \<Rightarrow> stat_row \<Rightarrow> string \<Rightarrow> datagram" where
  "gauge_of host port namespace row stat =
     (namespace @ ''.'' @ str_at row ''pxname'' @ ''.'' @ str_at row ''svname'' @ ''.'' @ stat
        @ '':'' @ value_text row stat @ ''|g'', (host, port))"

definition payload_of :: "string \<Rightarrow> stat_row \<Rightarrow> string \<Rightarrow> string" where
  "payload_of namespace row stat =
     namespace @ ''.'' @ str_at row ''pxname'' @ ''.'' @ str_at row ''svname'' @ ''.'' @ stat
       @ '':'' @ value_text row stat @ ''|g''"

definition sendable :: "int \<Rightarrow> string \<Rightarrow> stat_row \<Rightarrow> bool" where
  "sendable port namespace row =
     (0 \<le> port \<and> port \<le> 65535 \<and>
      list_all (\<lambda>stat. length (payload_of namespace row stat) \<le> max_payload) STATS)"

definition reportable :: "bool \<Rightarrow> int \<Rightarrow> string \<Rightarrow> stat_row \<Rightarrow> bool" where
  "reportable excludeproxies port namespace row =
     (processable excludeproxies row \<and>
      (passes_filter excludeproxies row \<longrightarrow> sendable port namespace row))"

text \<open>The gauges expected for the records of a sequence that pass the filter.\<close>

definition gauges_of ::
  "string \<Rightarrow> int \<Rightarrow> string \<Rightarrow> bool \<Rightarrow> stat_row list \<Rightarrow> datagram list" where
  "gauges_of host port namespace excludeproxies rows =
     concat (map (\<lambda>row. map (gauge_of host port namespace row) STATS)
                 (filter (passes_filter excludeproxies) rows))"

definition row_backend :: stat_row where
  "row_backend = \<lparr>cols = [''svname'' \<mapsto> Some ''BACKEND'', ''pxname'' \<mapsto> Some ''web'',
                          ''scur'' \<mapsto> Some ''5''], rest = None\<rparr>"

definition row_frontend :: stat_row where
  "row_frontend = \<lparr>cols = [''pxname'' \<mapsto> Some ''web'', ''svname'' \<mapsto> Some ''FRONTEND'',
                           ''scur'' \<mapsto> Some ''3''], rest = None\<rparr>"

definition row_server :: stat_row where
  "row_server = \<lparr>cols = [''pxname'' \<mapsto> Some ''web'', ''svname'' \<mapsto> Some ''server1'',
                         ''scur'' \<mapsto> Some ''1''], rest = None\<rparr>"

definition row_raw :: stat_row where
  "row_raw = \<lparr>cols = [''pxname'' \<mapsto> Some ''web'', ''svname'' \<mapsto> Some ''BACKEND'',
                      ''scur'' \<mapsto> Some ''05'', ''smax'' \<mapsto> Some ''abc''], rest = None\<rparr>"

definition row_no_svname :: stat_row where
  "row_no_svname = \<lparr>cols = [''pxname'' \<mapsto> Some ''web'', ''scur'' \<mapsto> Some ''5''], rest = None\<rparr>"

definition row_no_pxname :: stat_row where
  "row_no_pxname = \<lparr>cols = [''svname'' \<mapsto> Some ''FRONTEND'', ''scur'' \<mapsto> Some ''5''], rest = None\<rparr>"

text \<open>
  The row a line parses to on its own: defined when the parser accepts the line and is back
  at the start of a record at its end (no quoted field is left open).
\<close>

definition line_row :: "string \<Rightarrow> string list option" where
  "line_row l =
     (case parse_line parse_reset l of
        Inl e \<Rightarrow> None
      | Inr p \<Rightarrow> if rd_state p = START_RECORD then Some (rd_fields p) else None)"

text \<open>
  Splitting a line at its commas, and the lines on which the CSV parser does just that:
  not empty, free of quotes, line ends and 0 bytes, and no longer than the field limit.
\<close>

fun split_commas :: "string \<Rightarrow> string \<Rightarrow> string list" where
  "split_commas cur [] = [cur]"
| "split_commas cur (c # cs) =
     (if c = CHR '','' then cur # split_commas [] cs else split_commas (cur @ [c]) cs)"

definition plain_line :: "string \<Rightarrow> bool" where
  "plain_line l =
     (l \<noteq> [] \<and> list_all (\<lambda>c. c \<notin> set [CHR 0x22, CHR 0x00, CHR 0x0A, CHR 0x0D]) l \<and>
      length l \<le> field_limit)"

text \<open>The records a call of the Fetcher yields, and the values of a record under some keys.\<close>

definition fetched :: "error + stat_row iter \<Rightarrow> stat_row list" where
  "fetched res = (case res of Inl e \<Rightarrow> [] | Inr it \<Rightarrow> yielded it)"

definition lookup_all :: "string list \<Rightarrow> stat_row \<Rightarrow> string option option list" where
  "lookup_all keys row = map (cols row) keys"

definition urls_of :: "url_arg \<Rightarrow> string list" where
  "urls_of url = (case url of UrlStr s \<Rightarrow> [s] | UrlList us \<Rightarrow> us)"

text \<open>A network of four endpoints, for the examples.\<close>

definition example_net :: network where
  "example_net u a =
     (if u = ''http://lb1/;csv''
      then Inr \<lparr>status_code = 200, content = ''# a,b\<newline>1,2\<newline>''\<rparr>
      else if u = ''http://lb2/;csv''
      then Inr \<lparr>status_code = 200, content = ''# c,d\<newline>3,4\<newline>5,6\<newline>''\<rparr>
      else if u = ''http://lb3/;csv''
      then Inr \<lparr>status_code = 300, content = ''# pxname,svname,scur\<newline>''\<rparr>
      else if u = ''http://lb4/;csv''
      then Inr \<lparr>status_code = 503, content = ''Service Unavailable''\<rparr>
      else Inl (RequestException ''connection refused''))"

section \<open>The Reporter's loop\<close>

lemma length_STATS: "length STATS = 16"
  by (simp add: STATS_def)

lemma py_str_stat_val: "py_str (stat_val row stat) = value_text row stat"
  by (simp add: stat_val_def value_text_def dec.simps split: option.splits)

lemma gauge_of_payload: "gauge_of host port namespace row stat = (payload_of namespace row stat, (host, port))"
  by (simp add: gauge_of_def payload_of_def)

lemma send_stats_sent:
  assumes "0 \<le> port" "port \<le> 65535"
    and "\<forall>stat\<in>set stats. length (gauge_line path stat (stat_val row stat)) \<le> max_payload"
  shows "send_stats host port path row stats (w, c) =
           (w @ map (\<lambda>stat. (gauge_line path stat (stat_val row stat), (host, port))) stats,
            Inr (c + int (length stats)))"
  using assms(3)
proof (induction stats arbitrary: w c)
  case Nil
  then show ?case by simp
next
  case (Cons stat stats)
  then show ?case
    using assms(1,2) by (simp add: sendto_def)
qed

lemma send_stats_raises:
  assumes "port < 0 \<or> 65535 < port \<or>
           (\<exists>stat\<in>set stats. max_payload < length (gauge_line path stat (stat_val row stat)))"
    and "stats \<noteq> []"
  shows "\<exists>e. snd (send_stats host port path row stats (w, c)) = Inl e"
  using assms
proof (induction stats arbitrary: w c)
  case Nil
  then show ?case by simp
next
  case (Cons stat stats)
  show ?case
  proof (cases "sendto w (gauge_line path stat (stat_val row stat)) (host, port)")
    case (Inl e)
    then show ?thesis by simp
  next
    case (Inr w')
    then have ok: "\<not> (port < 0 \<or> 65535 < port)"
      and fit: "\<not> max_payload < length (gauge_line path stat (stat_val row stat))"
      by (auto simp: sendto_def split: if_splits)
    with Cons.prems(1)
    have more: "\<exists>stat\<in>set stats. max_payload < length (gauge_line path stat (stat_val row stat))"
      by auto
    then have "stats \<noteq> []" by auto
    with more Cons.IH[of w' "c + 1"] Inr show ?thesis
      by simp
  qed
qed

lemma send_stats_prefix:
  "\<exists>k. fst (send_stats host port path row stats (w, c)) =
         w @ take k (map (\<lambda>stat. (gauge_line path stat (stat_val row stat), (host, port))) stats)"
proof (induction stats arbitrary: w c)
  case Nil
  then show ?case by simp
next
  case (Cons stat stats)
  show ?case
  proof (cases "sendto w (gauge_line path stat (stat_val row stat)) (host, port)")
    case (Inl e)
    then have "fst (send_stats host port path row (stat # stats) (w, c)) =
                 w @ take 0 (map (\<lambda>stat. (gauge_line path stat (stat_val row stat), (host, port))) (stat # stats))"
      by simp
    then show ?thesis by blast
  next
    case (Inr w')
    then have w': "w' = w @ [(gauge_line path stat (stat_val row stat), (host, port))]"
      by (auto simp: sendto_def split: if_splits)
    from Cons.IH[of w' "c + 1"] obtain k
      where "fst (send_stats host port path row stats (w', c + 1)) =
               w' @ take k (map (\<lambda>stat. (gauge_line path stat (stat_val row stat), (host, port))) stats)"
      by blast
    with Inr w' have "fst (send_stats host port path row (stat # stats) (w, c)) =
        w @ take (Suc k) (map (\<lambda>stat. (gauge_line path stat (stat_val row stat), (host, port))) (stat # stats))"
      by simp
    then show ?thesis by blast
  qed
qed

lemma gauge_line_payload:
  assumes "cols row ''svname'' = Some (Some sv)" "cols row ''pxname'' = Some (Some px)"
    and "path = namespace @ ''.'' @ px @ ''.'' @ sv"
  shows "gauge_line path stat (stat_val row stat) = payload_of namespace row stat"
  using assms by (simp add: gauge_line_def payload_of_def str_at_def py_str_stat_val)

lemma report_row_path:
  assumes "cols row ''svname'' = Some (Some sv)" "cols row ''pxname'' = Some (Some px)"
    and "\<not> excludeproxies \<or> sv = ''BACKEND'' \<or> sv = ''FRONTEND''"
    and "path = namespace @ ''.'' @ px @ ''.'' @ sv"
  shows "report_row host port namespace excludeproxies row st =
           send_stats host port path row STATS st"
  using assms by (auto simp add: report_row_def str_join_def)

lemma report_row_skip:
  assumes "cols row ''svname'' = Some v" "v \<noteq> Some ''BACKEND''" "v \<noteq> Some ''FRONTEND''"
  shows "report_row host port namespace True row (w, c) = (w, Inr c)"
  using assms by (simp add: report_row_def)

lemma processable_names:
  assumes "processable excludeproxies row" "passes_filter excludeproxies row"
  obtains sv px where "cols row ''svname'' = Some (Some sv)" "cols row ''pxname'' = Some (Some px)"
    "\<not> excludeproxies \<or> sv = ''BACKEND'' \<or> sv = ''FRONTEND''"
  using assms
  by (auto simp: processable_def has_str_def passes_filter_def split: option.splits)

lemma report_row_reportable:
  assumes "reportable excludeproxies port namespace row"
  shows "report_row host port namespace excludeproxies row (w, c) =
           (if passes_filter excludeproxies row
            then (w @ map (gauge_of host port namespace row) STATS, Inr (c + 16))
            else (w, Inr c))"
proof (cases "passes_filter excludeproxies row")
  case True
  with assms have p: "processable excludeproxies row" and s: "sendable port namespace row"
    by (simp_all add: reportable_def)
  from p True obtain sv px where n: "cols row ''svname'' = Some (Some sv)"
    "cols row ''pxname'' = Some (Some px)" "\<not> excludeproxies \<or> sv = ''BACKEND'' \<or> sv = ''FRONTEND''"
    by (rule processable_names)
  define path where "path = namespace @ ''.'' @ px @ ''.'' @ sv"
  have g: "gauge_line path stat (stat_val row stat) = payload_of namespace row stat" for stat
    by (rule gauge_line_payload[OF n(1,2) path_def])
  from s have "0 \<le> port" "port \<le> 65535"
    and "\<forall>stat\<in>set STATS. length (gauge_line path stat (stat_val row stat)) \<le> max_payload"
    by (simp_all add: sendable_def list_all_iff g)
  from send_stats_sent[OF this, of host w c] True show ?thesis
    by (simp add: report_row_path[OF n path_def] g gauge_of_payload length_STATS)
next
  case False
  with assms obtain v where v: "cols row ''svname'' = Some v" "v \<noteq> Some ''BACKEND''"
    "v \<noteq> Some ''FRONTEND''" "excludeproxies"
    by (auto simp: reportable_def processable_def passes_filter_def)
  with report_row_skip[OF v(1-3)] False show ?thesis by simp
qed

lemma report_row_raises:
  assumes "\<not> reportable excludeproxies port namespace row"
  shows "\<exists>e. snd (report_row host port namespace excludeproxies row (w, c)) = Inl e"
proof (cases "processable excludeproxies row")
  case False
  then show ?thesis
    by (auto simp: processable_def passes_filter_def has_str_def report_row_def str_join_def
        split: option.splits)
next
  case True
  with assms have f: "passes_filter excludeproxies row" and s: "\<not> sendable port namespace row"
    by (simp_all add: reportable_def)
  from True f obtain sv px where n: "cols row ''svname'' = Some (Some sv)"
    "cols row ''pxname'' = Some (Some px)" "\<not> excludeproxies \<or> sv = ''BACKEND'' \<or> sv = ''FRONTEND''"
    by (rule processable_names)
  define path where "path = namespace @ ''.'' @ px @ ''.'' @ sv"
  have g: "gauge_line path stat (stat_val row stat) = payload_of namespace row stat" for stat
    by (rule gauge_line_payload[OF n(1,2) path_def])
  from s have "port < 0 \<or> 65535 < port \<or>
           (\<exists>stat\<in>set STATS. max_payload < length (gauge_line path stat (stat_val row stat)))"
    by (fastforce simp: sendable_def list_all_iff g not_le)
  moreover have "STATS \<noteq> []" by (simp add: STATS_def)
  ultimately show ?thesis
    unfolding report_row_path[OF n path_def] by (rule send_stats_raises)
qed

lemma report_row_prefix:
  assumes "processable excludeproxies row"
  shows "\<exists>k. fst (report_row host port namespace excludeproxies row (w, c)) =
              w @ take k (if passes_filter excludeproxies row
                          then map (gauge_of host port namespace row) STATS else [])"
proof (cases "passes_filter excludeproxies row")
  case True
  from assms True obtain sv px where n: "cols row ''svname'' = Some (Some sv)"
    "cols row ''pxname'' = Some (Some px)" "\<not> excludeproxies \<or> sv = ''BACKEND'' \<or> sv = ''FRONTEND''"
    by (rule processable_names)
  define path where "path = namespace @ ''.'' @ px @ ''.'' @ sv"
  have g: "gauge_line path stat (stat_val row stat) = payload_of namespace row stat" for stat
    by (rule gauge_line_payload[OF n(1,2) path_def])
  from send_stats_prefix[of host port path row STATS w c] True
  show ?thesis
    by (simp add: report_row_path[OF n path_def] g gauge_of_payload[abs_def])
next
  case False
  with assms obtain v where v: "cols row ''svname'' = Some v" "v \<noteq> Some ''BACKEND''"
    "v \<noteq> Some ''FRONTEND''" "excludeproxies"
    by (auto simp: processable_def passes_filter_def)
  with report_row_skip[OF v(1-3), of host port namespace w c] False show ?thesis by simp
qed

lemma gauges_of_simps:
  "gauges_of host port namespace excludeproxies [] = []"
  "gauges_of host port namespace excludeproxies (row # rows) =
     (if passes_filter excludeproxies row then map (gauge_of host port namespace row) STATS else [])
     @ gauges_of host port namespace excludeproxies rows"
  "gauges_of host port namespace excludeproxies (pre @ rows) =
     gauges_of host port namespace excludeproxies pre @ gauges_of host port namespace excludeproxies rows"
  by (simp_all add: gauges_of_def)

lemma report_loop_reportable:
  assumes "\<forall>row\<in>set (yielded it). reportable excludeproxies port namespace row"
  shows "report_loop host port namespace excludeproxies it (w, c) =
           (w @ gauges_of host port namespace excludeproxies (yielded it),
            case raised it of
              None \<Rightarrow> Inr (c + 16 * int (length (filter (passes_filter excludeproxies) (yielded it))))
            | Some e \<Rightarrow> Inl e)"
  using assms
proof (induction it arbitrary: w c)
  case Stop
  then show ?case by (simp add: gauges_of_simps)
next
  case (Raise e)
  then show ?case by (simp add: gauges_of_simps)
next
  case (Yield row it)
  then show ?case
    by (auto simp add: report_row_reportable gauges_of_simps split: option.splits)
qed


lemma report_loop_prefix:
  assumes "\<forall>row\<in>set (yielded it). processable excludeproxies row"
  shows "\<exists>k. fst (report_loop host port namespace excludeproxies it (w, c)) =
              w @ take k (gauges_of host port namespace excludeproxies (yielded it))"
  using assms
proof (induction it arbitrary: w c)
  case Stop
  then show ?case by (simp add: gauges_of_simps)
next
  case (Raise e)
  then show ?case by (simp add: gauges_of_simps)
next
  case (Yield row it)
  let ?g = "if passes_filter excludeproxies row
            then map (gauge_of host port namespace row) STATS else []"
  let ?G = "gauges_of host port namespace excludeproxies (yielded it)"
  from Yield.prems have p: "processable excludeproxies row"
    and rest: "\<forall>row\<in>set (yielded it). processable excludeproxies row"
    by simp_all
  obtain w' r where rr: "report_row host port namespace excludeproxies row (w, c) = (w', r)"
    by (cases "report_row host port namespace excludeproxies row (w, c)")
  from report_row_prefix[OF p, of host port namespace w c] rr obtain k where k: "w' = w @ take k ?g"
    by auto
  show ?case
  proof (cases r)
    case (Inl e)
    have t: "take k ?g = take (min k (length ?g)) (?g @ ?G)"
      by (cases "k \<le> length ?g") simp_all
    from rr k Inl have "fst (report_loop host port namespace excludeproxies (Yield row it) (w, c)) =
        w @ take k ?g"
      by simp
    then have "fst (report_loop host port namespace excludeproxies (Yield row it) (w, c)) =
        w @ take (min k (length ?g)) (?g @ ?G)"
      by (simp only: t)
    then show ?thesis
      unfolding yielded.simps gauges_of_simps by blast
  next
    case (Inr c')
    have full: "w' = w @ ?g"
    proof (cases "reportable excludeproxies port namespace row")
      case True
      from report_row_reportable[OF True, of host w c] rr show ?thesis
        by (auto split: if_splits)
    next
      case False
      from report_row_raises[OF False, of host w c] rr Inr show ?thesis by simp
    qed
    from Yield.IH[OF rest, of w' c'] obtain j
      where "fst (report_loop host port namespace excludeproxies it (w', c')) = w' @ take j ?G"
      by blast
    with rr Inr full have "fst (report_loop host port namespace excludeproxies (Yield row it) (w, c)) =
        w @ take (length ?g + j) (?g @ ?G)"
      by simp
    then show ?thesis
      unfolding yielded.simps gauges_of_simps by blast
  qed
qed

lemma yielded_iter_of_list [simp]: "yielded (iter_of_list xs) = xs"
  by (induction xs) simp_all

lemma raised_iter_of_list [simp]: "raised (iter_of_list xs) = None"
  by (induction xs) simp_all

lemma report_to_statsd_reportable:
  assumes "\<forall>row\<in>set (yielded it). reportable excludeproxies port namespace row"
  shows "report_to_statsd it host port namespace excludeproxies =
           (gauges_of host port namespace excludeproxies (yielded it),
            case raised it of
              None \<Rightarrow> Inr (16 * int (length (filter (passes_filter excludeproxies) (yielded it))))
            | Some e \<Rightarrow> Inl e)"
  using report_loop_reportable[OF assms, of host "[]" 0]
  by (simp add: report_to_statsd_def split: option.splits)

lemma example_rows_processable:
  "processable b row_frontend" "processable b row_server" "processable b row_backend"
  "processable b row_raw"
  by (simp_all add: processable_def passes_filter_def has_str_def row_frontend_def row_server_def
      row_backend_def row_raw_def)

lemma example_rows_filter:
  "passes_filter b row_frontend" "passes_filter b row_backend" "passes_filter b row_raw"
  "passes_filter b row_server = (\<not> b)"
  by (simp_all add: passes_filter_def row_frontend_def row_server_def row_backend_def row_raw_def)

lemma example_rows_sendable:
  "sendable 8125 ''haproxy'' row_frontend" "sendable 8125 ''haproxy'' row_server"
  "sendable 8125 ''haproxy'' row_backend" "sendable 8125 ''haproxy'' row_raw"
  by (simp_all add: sendable_def max_payload_def STATS_def payload_of_def str_at_def value_text_def
      row_frontend_def row_server_def row_backend_def row_raw_def)

lemma example_rows_reportable:
  "reportable b 8125 ''haproxy'' row_frontend" "reportable b 8125 ''haproxy'' row_server"
  "reportable b 8125 ''haproxy'' row_backend" "reportable b 8125 ''haproxy'' row_raw"
  by (simp_all add: reportable_def example_rows_processable example_rows_sendable)








lemma report_row_no_svname:
  "cols row ''svname'' = None \<Longrightarrow>
     report_row host port namespace excludeproxies row (w, c) = (w, Inl (KeyError ''svname''))"
  by (simp add: report_row_def)

lemma report_row_no_pxname:
  assumes "cols row ''svname'' = Some v" "cols row ''pxname'' = None"
    and "v = Some ''BACKEND'' \<or> v = Some ''FRONTEND'' \<or> \<not> excludeproxies"
  shows "report_row host port namespace excludeproxies row (w, c) = (w, Inl (KeyError ''pxname''))"
  using assms by (auto simp add: report_row_def)

lemma report_loop_append:
  assumes "\<forall>row\<in>set pre. reportable excludeproxies port namespace row"
  shows "report_loop host port namespace excludeproxies (iter_of_list (pre @ rows)) (w, c) =
           report_loop host port namespace excludeproxies (iter_of_list rows)
             (w @ gauges_of host port namespace excludeproxies pre,
              c + 16 * int (length (filter (passes_filter excludeproxies) pre)))"
  using assms
  by (induction pre arbitrary: w c) (simp_all add: report_row_reportable gauges_of_simps add.assoc)

text \<open>
  Claim C10. The names are looked up without a default. Where the records before it are
  handled without an exception, a record without the key \<^verbatim>\<open>svname\<close> ends the Reporter
  with \<^verbatim>\<open>KeyError('svname')\<close>, whatever the flag \<open>excludeproxies\<close> is, and a record that
  passes the filter without the key \<^verbatim>\<open>pxname\<close> ends it with \<^verbatim>\<open>KeyError('pxname')\<close>; the
  gauges of the earlier records have been sent, and no count is returned.
\<close>

theorem missing_names_raise_key_error:
  assumes "\<forall>r\<in>set pre. reportable excludeproxies port namespace r"
  shows "(cols row ''svname'' = None \<longrightarrow>
            report_to_statsd (iter_of_list (pre @ row # post)) host port namespace excludeproxies =
              (concat (map (\<lambda>r. map (gauge_of host port namespace r) STATS)
                           (filter (passes_filter excludeproxies) pre)),
               Inl (KeyError ''svname''))) \<and>
         (cols row ''svname'' = Some v \<and> cols row ''pxname'' = None \<and>
          (v = Some ''BACKEND'' \<or> v = Some ''FRONTEND'' \<or> \<not> excludeproxies) \<longrightarrow>
            report_to_statsd (iter_of_list (pre @ row # post)) host port namespace excludeproxies =
              (concat (map (\<lambda>r. map (gauge_of host port namespace r) STATS)
                           (filter (passes_filter excludeproxies) pre)),
               Inl (KeyError ''pxname'')))"
proof (intro conjI impI)
  assume "cols row ''svname'' = None"
  then show "report_to_statsd (iter_of_list (pre @ row # post)) host port namespace excludeproxies =
              (concat (map (\<lambda>r. map (gauge_of host port namespace r) STATS)
                           (filter (passes_filter excludeproxies) pre)),
               Inl (KeyError ''svname''))"
    by (simp add: report_to_statsd_def report_loop_append[OF assms] report_row_no_svname
        gauges_of_def)
next
  assume "cols row ''svname'' = Some v \<and> cols row ''pxname'' = None \<and>
          (v = Some ''BACKEND'' \<or> v = Some ''FRONTEND'' \<or> \<not> excludeproxies)"
  then have "report_row host port namespace excludeproxies row (w, c) = (w, Inl (KeyError ''pxname''))"
    for w c
    using report_row_no_pxname[of row v excludeproxies] by blast
  then show "report_to_statsd (iter_of_list (pre @ row # post)) host port namespace excludeproxies =
              (concat (map (\<lambda>r. map (gauge_of host port namespace r) STATS)
                           (filter (passes_filter excludeproxies) pre)),
               Inl (KeyError ''pxname''))"
    by (simp add: report_to_statsd_def report_loop_append[OF assms] gauges_of_def)
qed

theorem missing_names_raise_key_error_witness:
  "list_all (reportable True 8125 ''haproxy'') [row_frontend] \<and>
   list_all (reportable False 8125 ''haproxy'') [row_frontend] \<and>
   report_to_statsd (iter_of_list [row_frontend, row_no_svname, row_backend])
       ''127.0.0.1'' 8125 ''haproxy'' True =
     (map (gauge_of ''127.0.0.1'' 8125 ''haproxy'' row_frontend) STATS, Inl (KeyError ''svname'')) \<and>
   report_to_statsd (iter_of_list [row_frontend, row_no_svname, row_backend])
       ''127.0.0.1'' 8125 ''haproxy'' False =
     (map (gauge_of ''127.0.0.1'' 8125 ''haproxy'' row_frontend) STATS, Inl (KeyError ''svname'')) \<and>
   report_to_statsd (iter_of_list [row_frontend, row_no_pxname, row_backend])
       ''127.0.0.1'' 8125 ''haproxy'' True =
     (map (gauge_of ''127.0.0.1'' 8125 ''haproxy'' row_frontend) STATS, Inl (KeyError ''pxname''))"
proof -
  have t: "\<forall>r\<in>set [row_frontend]. reportable True 8125 ''haproxy'' r"
    and u: "\<forall>r\<in>set [row_frontend]. reportable False 8125 ''haproxy'' r"
    by (simp_all add: example_rows_reportable)
  have n: "cols row_no_svname ''svname'' = None"
    "cols row_no_pxname ''svname'' = Some (Some ''FRONTEND'')" "cols row_no_pxname ''pxname'' = None"
    by (simp_all add: row_no_svname_def row_no_pxname_def)
  show ?thesis
    using missing_names_raise_key_error[OF t, where row = row_no_svname and post = "[row_backend]"
        and host = "''127.0.0.1''"]
      missing_names_raise_key_error[OF u, where row = row_no_svname and post = "[row_backend]"
        and host = "''127.0.0.1''"]
      missing_names_raise_key_error[OF t, where row = row_no_pxname and post = "[row_backend]"
        and v = "Some ''FRONTEND''" and host = "''127.0.0.1''"]
    by (simp add: example_rows_reportable example_rows_filter n)
qed

text \<open>
  Claim C5, as amended. The value is not converted to a number. The expected payloads are,
  for each record that passes the filter and each tracked field in turn, the metric path,
  a colon, and then \<^verbatim>\<open>0\<close> where the field is missing, \<^verbatim>\<open>None\<close> or the empty string, and
  otherwise the string stored in the record, character for character. For an iterator whose
  records have their names, the payloads sent are the first of the expected payloads, as
  many as were sent before an exception ended the loop; they are all of them where the
  socket takes every datagram.
\<close>

theorem emitted_value_zero_or_stored_string:
  assumes "\<forall>row\<in>set (yielded it). processable excludeproxies row"
  shows "map fst (fst (report_to_statsd it host port namespace excludeproxies)) =
           take (length (fst (report_to_statsd it host port namespace excludeproxies)))
             (concat (map (\<lambda>row. map (\<lambda>stat.
                           namespace @ ''.'' @ str_at row ''pxname'' @ ''.'' @ str_at row ''svname'' @
                           ''.'' @ stat @ '':'' @
                           (case cols row stat of
                              None \<Rightarrow> ''0''
                            | Some None \<Rightarrow> ''0''
                            | Some (Some s) \<Rightarrow> if s = [] then ''0'' else s) @ ''|g'')
                         STATS)
                       (filter (passes_filter excludeproxies) (yielded it)))) \<and>
         ((\<forall>row\<in>set (yielded it). passes_filter excludeproxies row \<longrightarrow> sendable port namespace row) \<longrightarrow>
          map fst (fst (report_to_statsd it host port namespace excludeproxies)) =
             concat (map (\<lambda>row. map (\<lambda>stat.
                           namespace @ ''.'' @ str_at row ''pxname'' @ ''.'' @ str_at row ''svname'' @
                           ''.'' @ stat @ '':'' @
                           (case cols row stat of
                              None \<Rightarrow> ''0''
                            | Some None \<Rightarrow> ''0''
                            | Some (Some s) \<Rightarrow> if s = [] then ''0'' else s) @ ''|g'')
                         STATS)
                       (filter (passes_filter excludeproxies) (yielded it))))"
proof -
  define payload where "payload = (\<lambda>row stat.
      namespace @ ''.'' @ str_at row ''pxname'' @ ''.'' @ str_at row ''svname'' @
      ''.'' @ stat @ '':'' @
      (case cols row stat of
         None \<Rightarrow> ''0''
       | Some None \<Rightarrow> ''0''
       | Some (Some s) \<Rightarrow> if s = [] then ''0'' else s) @ ''|g'')"
  define expected where "expected = concat (map (\<lambda>row. map (payload row) STATS)
                              (filter (passes_filter excludeproxies) (yielded it)))"
  define sent where "sent = fst (report_to_statsd it host port namespace excludeproxies)"
  define G where "G = gauges_of host port namespace excludeproxies (yielded it)"
  have "fst (gauge_of host port namespace row stat) = payload row stat" for row stat
    by (simp add: gauge_of_def value_text_def payload_def split: option.splits)
  then have e: "map fst G = expected"
    by (simp add: G_def expected_def gauges_of_def map_concat comp_def)
  from report_loop_prefix[OF assms, of host port namespace "[]" 0] obtain k
    where k: "sent = take k G"
    by (auto simp: report_to_statsd_def sent_def G_def)
  have "map fst sent = take k expected"
    unfolding k e[symmetric] by (simp add: take_map)
  moreover have "length sent = min k (length expected)"
    unfolding k e[symmetric] by (simp add: min.commute)
  ultimately have a: "map fst sent = take (length sent) expected"
    by (simp add: min_def)
  have b: "map fst sent = expected"
    if "\<forall>row\<in>set (yielded it). passes_filter excludeproxies row \<longrightarrow> sendable port namespace row"
  proof -
    from assms that have "\<forall>row\<in>set (yielded it). reportable excludeproxies port namespace row"
      by (simp add: reportable_def)
    from report_to_statsd_reportable[OF this, of host] e show ?thesis
      by (simp add: sent_def G_def)
  qed
  from a b show ?thesis
    unfolding sent_def expected_def payload_def by blast
qed

theorem emitted_value_zero_or_stored_string_witness:
  "list_all (processable True) [row_raw, row_server] \<and>
   take 3 (map fst (fst (report_to_statsd (iter_of_list [row_raw, row_server])
                           ''127.0.0.1'' 8125 ''haproxy'' True))) =
     [''haproxy.web.BACKEND.scur:05|g'', ''haproxy.web.BACKEND.smax:abc|g'',
      ''haproxy.web.BACKEND.ereq:0|g'']"
proof -
  have h: "\<forall>row\<in>set (yielded (iter_of_list [row_raw, row_server])). processable True row"
    by (simp add: example_rows_processable)
  have s: "\<forall>row\<in>set (yielded (iter_of_list [row_raw, row_server])).
             passes_filter True row \<longrightarrow> sendable 8125 ''haproxy'' row"
    by (simp add: example_rows_sendable)
  have v: "str_at row_raw ''pxname'' = ''web''" "str_at row_raw ''svname'' = ''BACKEND''"
    "cols row_raw ''scur'' = Some (Some ''05'')" "cols row_raw ''smax'' = Some (Some ''abc'')"
    "cols row_raw ''ereq'' = None"
    by (simp_all add: str_at_def row_raw_def)
  show ?thesis
    using emitted_value_zero_or_stored_string[OF h, where host = "''127.0.0.1''" and port = 8125
        and namespace = "''haproxy''", THEN conjunct2, THEN mp, OF s]
    by (simp add: example_rows_processable example_rows_filter v STATS_def)
qed

text \<open>
  The claim as stated fails: the stored strings \<^verbatim>\<open>05\<close> and \<^verbatim>\<open>abc\<close> stay strings and are
  sent as they are.
\<close>

theorem raw_string_is_emitted_counterexample:
  "stat_val row_raw ''scur'' = PStr ''05'' \<and>
   stat_val row_raw ''smax'' = PStr ''abc'' \<and>
   take 2 (fst (report_to_statsd (iter_of_list [row_raw]) ''127.0.0.1'' 8125 ''haproxy'' False)) =
     [(''haproxy.web.BACKEND.scur:05|g'', (''127.0.0.1'', 8125)),
      (''haproxy.web.BACKEND.smax:abc|g'', (''127.0.0.1'', 8125))]"
  by (simp add: report_to_statsd_def report_row_def str_join_def STATS_def sendto_def
      max_payload_def gauge_line_def stat_val_def row_raw_def dec.simps)






section \<open>The Fetcher's loop and the CSV reader\<close>

lemma fetch_loop_all_ok:
  assumes "map (\<lambda>u. net u auth) us = map Inr rs"
    and "\<forall>r\<in>set rs. \<not> (400 \<le> status_code r \<and> status_code r < 600) \<and> splitlines (content r) \<noteq> []"
  shows "fetch_loop net auth us (aggregated, header) =
           Inr (aggregated @ concat (map (\<lambda>r. tl (splitlines (content r))) rs),
                if rs = [] then header
                else Some (lstrip ''# '' (hd (splitlines (content (last rs))))))"
  using assms
proof (induction us arbitrary: rs aggregated header)
  case Nil
  then show ?case by simp
next
  case (Cons u us)
  from Cons.prems(1) obtain r rs' where rs: "rs = r # rs'" and r: "net u auth = Inr r"
    and rest: "map (\<lambda>u. net u auth) us = map Inr rs'"
    by (cases rs) auto
  from Cons.prems(2) rs have ok: "raise_for_status r = Inr ()"
    and ne: "splitlines (content r) \<noteq> []"
    and ok': "\<forall>r\<in>set rs'. \<not> (400 \<le> status_code r \<and> status_code r < 600) \<and> splitlines (content r) \<noteq> []"
    by (auto simp: raise_for_status_def)
  from ne obtain l lines where sl: "splitlines (content r) = l # lines"
    by (cases "splitlines (content r)") auto
  show ?case
    using Cons.IH[OF rest ok'] r ok sl rs by simp
qed

lemma reader_rows_complete_lines:
  "map line_row ls = map Some rows \<Longrightarrow> reader_rows parse_reset ls = iter_of_list rows"
proof (induction ls arbitrary: rows)
  case Nil
  then show ?case by (simp add: parse_reset_def)
next
  case (Cons l ls)
  from Cons.prems obtain row rows' where rows: "rows = row # rows'"
    and l: "line_row l = Some row" and rest: "map line_row ls = map Some rows'"
    by (cases rows) auto
  from l obtain p where "parse_line parse_reset l = Inr p" "rd_state p = START_RECORD" "rd_fields p = row"
    by (auto simp: line_row_def split: sum.splits if_splits)
  then show ?case
    using Cons.IH[OF rest] rows by simp
qed

lemma dict_rows_list:
  "dict_rows fieldnames (iter_of_list rows) =
     iter_of_list (map (make_row fieldnames) (filter (\<lambda>row. row \<noteq> []) rows))"
  by (induction rows) simp_all

lemma DictReader_complete_lines:
  assumes "line_row h = Some fieldnames" "map line_row ls = map Some rows"
  shows "DictReader (h # ls) =
           iter_of_list (map (make_row fieldnames) (filter (\<lambda>row. row \<noteq> []) rows))"
proof -
  from assms have "map line_row (h # ls) = map Some (fieldnames # rows)"
    by simp
  then have "csv_reader (h # ls) = iter_of_list (fieldnames # rows)"
    unfolding csv_reader_def by (rule reader_rows_complete_lines)
  then show ?thesis
    by (simp add: DictReader_def dict_rows_list)
qed

lemma filter_nonempty_rows: "[] \<notin> set rows \<Longrightarrow> filter (\<lambda>row. row \<noteq> []) rows = rows"
  by (induction rows) auto

lemma make_row_lookup:
  assumes "distinct fieldnames" "length row = length fieldnames" "i < length fieldnames"
  shows "cols (make_row fieldnames row) (fieldnames ! i) = Some (Some (row ! i))"
proof -
  have d: "distinct (map fst (rev (zip fieldnames row)))"
    using assms(1,2) by (simp add: rev_map[symmetric] distinct_rev)
  have "(fieldnames ! i, row ! i) \<in> set (rev (zip fieldnames row))"
    using assms(2,3) by (auto simp: set_zip)
  with d have "map_of (rev (zip fieldnames row)) (fieldnames ! i) = Some (row ! i)"
    by (rule map_of_is_SomeI)
  then show ?thesis
    using assms(2) by (simp add: make_row_def dict_zip_def)
qed


lemma parse_line_plain:
  assumes "rd_state p = START_FIELD \<or> rd_state p = IN_FIELD"
    and "list_all (\<lambda>c. c \<notin> set [CHR 0x22, CHR 0x00, CHR 0x0A, CHR 0x0D]) l"
    and "length (rd_field p) + length l \<le> field_limit"
  shows "parse_line p l =
           Inr (p\<lparr>rd_state := START_RECORD,
                  rd_fields := rd_fields p @ split_commas (rd_field p) l,
                  rd_field := []\<rparr>)"
  using assms
proof (induction l arbitrary: p)
  case Nil
  then show ?case
    by (auto simp: parse_process_char_def start_field_def is_eol_def end_of_line_def
        parse_save_field_def)
next
  case (Cons c cs)
  from Cons.prems(2) have c: "c \<noteq> CHR 0x22" "c \<noteq> CHR 0x00" "c \<noteq> CHR 0x0A" "c \<noteq> CHR 0x0D"
    and cs: "list_all (\<lambda>c. c \<notin> set [CHR 0x22, CHR 0x00, CHR 0x0A, CHR 0x0D]) cs"
    by simp_all
  show ?case
  proof (cases "c = CHR '',''")
    case True
    let ?q = "(parse_save_field p)\<lparr>rd_state := START_FIELD\<rparr>"
    have step: "parse_process_char p c = Inr ?q"
      using Cons.prems(1) c True
      by (auto simp: parse_process_char_def start_field_def is_eol_def)
    have "parse_line ?q cs =
            Inr (?q\<lparr>rd_state := START_RECORD,
                      rd_fields := rd_fields ?q @ split_commas (rd_field ?q) cs,
                      rd_field := []\<rparr>)"
      using Cons.prems(3) cs by (intro Cons.IH) (simp_all add: parse_save_field_def)
    with step c True show ?thesis
      by (simp add: parse_save_field_def)
  next
    case False
    let ?q = "p\<lparr>rd_field := rd_field p @ [c], rd_state := IN_FIELD\<rparr>"
    have lim: "\<not> field_limit \<le> length (rd_field p)"
      using Cons.prems(3) by simp
    have step: "parse_process_char p c = Inr ?q"
      using Cons.prems(1) c False lim
      by (auto simp: parse_process_char_def start_field_def is_eol_def parse_add_char_def
          with_state_def)
    have "parse_line ?q cs =
            Inr (?q\<lparr>rd_state := START_RECORD,
                      rd_fields := rd_fields ?q @ split_commas (rd_field ?q) cs,
                      rd_field := []\<rparr>)"
      using Cons.prems(3) cs by (intro Cons.IH) simp_all
    with step c False show ?thesis
      by simp
  qed
qed

lemma plain_line_row:
  assumes "plain_line l"
  shows "line_row l = Some (split_commas [] l)"
proof -
  from assms obtain c cs where l: "l = c # cs"
    by (cases l) (auto simp: plain_line_def)
  let ?p = "parse_reset\<lparr>rd_state := START_FIELD\<rparr>"
  from assms l have c: "c \<noteq> CHR 0x00" "c \<noteq> CHR 0x0A" "c \<noteq> CHR 0x0D"
    by (simp_all add: plain_line_def)
  then have same: "parse_process_char parse_reset c = parse_process_char ?p c"
    by (simp add: parse_process_char_def parse_reset_def start_field_def parse_save_field_def
        parse_add_char_def with_state_def split: sum.splits)
  have "parse_line ?p l =
          Inr (?p\<lparr>rd_state := START_RECORD,
                    rd_fields := rd_fields ?p @ split_commas (rd_field ?p) l,
                    rd_field := []\<rparr>)"
    using assms by (intro parse_line_plain) (simp_all add: plain_line_def parse_reset_def)
  moreover have "parse_line parse_reset l = parse_line ?p l"
    using l c same by simp
  ultimately show ?thesis
    by (simp add: line_row_def parse_reset_def)
qed

lemma split_commas_nonempty: "split_commas cur l \<noteq> []"
  by (induction l arbitrary: cur) simp_all

lemmas csv_defs =
  line_row_def parse_reset_def parse_process_char_def start_field_def is_eol_def end_of_line_def
  parse_save_field_def parse_add_char_def field_limit_def with_state_def

lemma example_net_lines:
  "splitlines ''# a,b\<newline>1,2\<newline>'' = [''# a,b'', ''1,2'']"
  "splitlines ''# c,d\<newline>3,4\<newline>5,6\<newline>'' = [''# c,d'', ''3,4'', ''5,6'']"
  "splitlines ''# pxname,svname,scur\<newline>'' = [''# pxname,svname,scur'']"
  by (simp_all add: splitlines_def)

lemma example_net_rows:
  "line_row ''a,b'' = Some [''a'', ''b'']"
  "line_row ''c,d'' = Some [''c'', ''d'']"
  "line_row ''1,2'' = Some [''1'', ''2'']"
  "line_row ''3,4'' = Some [''3'', ''4'']"
  "line_row ''5,6'' = Some [''5'', ''6'']"
  "line_row ''pxname,svname,scur'' = Some [''pxname'', ''svname'', ''scur'']"
  by (simp_all add: csv_defs)

lemma example_net_headers:
  "lstrip ''# '' ''# a,b'' = ''a,b''"
  "lstrip ''# '' ''# c,d'' = ''c,d''"
  "lstrip ''# '' ''# pxname,svname,scur'' = ''pxname,svname,scur''"
  by (simp_all add: lstrip_def)

lemma get_haproxy_report_all_ok:
  assumes "us \<noteq> []"
    and "map (\<lambda>u. net u (make_auth user password)) us = map Inr rs"
    and "\<forall>r\<in>set rs. \<not> (400 \<le> status_code r \<and> status_code r < 600) \<and> splitlines (content r) \<noteq> []"
  shows "get_haproxy_report net (UrlList us) user password =
           Inr (DictReader (lstrip ''# '' (hd (splitlines (content (last rs))))
                            # concat (map (\<lambda>r. tl (splitlines (content r))) rs)))"
proof -
  from assms(1,2) have "rs \<noteq> []" by auto
  then show ?thesis
    using fetch_loop_all_ok[where net = net and auth = "make_auth user password"
        and aggregated = "[]" and header = None, OF assms(2,3)]
    by (simp add: get_haproxy_report_def)
qed

text \<open>
  Claim C1, as amended. The variable \<open>header\<close> is assigned in every iteration, so the header
  that is parsed is the one of the last endpoint. For two or more endpoints that all answer
  without an error status and with a body that is not empty, the records are those of the
  CSV text made of the last endpoint's header line (stripped), followed by the data lines
  of all endpoints in order; the first line of every other endpoint occurs nowhere in it.
\<close>

theorem header_of_last_endpoint:
  assumes "2 \<le> length us"
    and "map (\<lambda>u. net u (make_auth user password)) us = map Inr rs"
    and "\<forall>r\<in>set rs. \<not> (400 \<le> status_code r \<and> status_code r < 600) \<and> splitlines (content r) \<noteq> []"
  shows "get_haproxy_report net (UrlList us) user password =
           Inr (DictReader (lstrip ''# '' (hd (splitlines (content (last rs))))
                            # concat (map (\<lambda>r. tl (splitlines (content r))) rs)))"
proof -
  from assms(1) have "us \<noteq> []" by auto
  then show ?thesis using assms(2,3) by (rule get_haproxy_report_all_ok)
qed

theorem header_of_last_endpoint_witness:
  "get_haproxy_report example_net (UrlList [''http://lb1/;csv'', ''http://lb2/;csv'']) None None =
     Inr (DictReader [''c,d'', ''1,2'', ''3,4'', ''5,6''])"
proof -
  let ?r1 = "\<lparr>status_code = 200, content = ''# a,b\<newline>1,2\<newline>''\<rparr>"
  let ?r2 = "\<lparr>status_code = 200, content = ''# c,d\<newline>3,4\<newline>5,6\<newline>''\<rparr>"
  have a: "(2::nat) \<le> length [''http://lb1/;csv'', ''http://lb2/;csv'']"
    by simp
  have b: "map (\<lambda>u. example_net u (make_auth None None)) [''http://lb1/;csv'', ''http://lb2/;csv'']
             = map Inr [?r1, ?r2]"
    by (simp add: example_net_def)
  have c: "\<forall>r\<in>set [?r1, ?r2]. \<not> (400 \<le> status_code r \<and> status_code r < 600) \<and> splitlines (content r) \<noteq> []"
    by (simp add: example_net_lines)
  show ?thesis
    using header_of_last_endpoint[where net = example_net and user = None and password = None,
        OF a b c]
    by (simp add: example_net_lines example_net_headers)
qed

text \<open>
  The claim as stated fails: the first endpoint's header is \<^verbatim>\<open># a,b\<close> and the second's
  \<^verbatim>\<open># c,d\<close>, and all three records, the first endpoint's row included, have the keys
  \<^verbatim>\<open>c\<close> and \<^verbatim>\<open>d\<close> and neither \<^verbatim>\<open>a\<close> nor \<^verbatim>\<open>b\<close>.
\<close>

theorem first_header_not_used_counterexample:
  "map (lookup_all [''a'', ''b'', ''c'', ''d''])
     (fetched (get_haproxy_report example_net
                 (UrlList [''http://lb1/;csv'', ''http://lb2/;csv'']) None None)) =
     [[None, None, Some (Some ''1''), Some (Some ''2'')],
      [None, None, Some (Some ''3''), Some (Some ''4'')],
      [None, None, Some (Some ''5''), Some (Some ''6'')]]"
  by (simp add: get_haproxy_report_def make_auth_def example_net_def raise_for_status_def
      example_net_lines example_net_headers
      DictReader_def csv_reader_def parse_reset_def parse_process_char_def start_field_def
      is_eol_def end_of_line_def parse_save_field_def parse_add_char_def field_limit_def
      with_state_def make_row_def dict_zip_def fetched_def lookup_all_def)


text \<open>
  Claim C2. An endpoint answers without an error status and its body is a first line \<open>h\<close>
  followed by the lines \<open>ls\<close>, each of which is a CSV row of its own that is not empty.
  Fetching that one endpoint yields exactly one record per data line, in order, made from the
  field names of the stripped header and the fields of the line; where the field names are
  distinct and the row has as many fields, the record maps the \<open>i\<close>-th name to the \<open>i\<close>-th
  field. Fetching two such endpoints yields the records of the first endpoint's data lines
  followed by those of the second's, \<open>length ls1 + length ls2\<close> in all. A line without
  quotes is such a row: its fields are the pieces between its commas.
\<close>

theorem fetch_yields_rows_in_order:
  "(net u (make_auth user password) = Inr r \<and>
    \<not> (400 \<le> status_code r \<and> status_code r < 600) \<and>
    splitlines (content r) = h # ls \<and>
    line_row (lstrip ''# '' h) = Some fieldnames \<and>
    map line_row ls = map Some rows \<and> [] \<notin> set rows
    \<longrightarrow> get_haproxy_report net (UrlList [u]) user password =
          Inr (iter_of_list (map (make_row fieldnames) rows)) \<and>
        length (map (make_row fieldnames) rows) = length ls \<and>
        (\<forall>row\<in>set rows. \<forall>i < length fieldnames.
           distinct fieldnames \<and> length row = length fieldnames
           \<longrightarrow> cols (make_row fieldnames row) (fieldnames ! i) = Some (Some (row ! i)))) \<and>
   (net u1 (make_auth user password) = Inr r1 \<and> net u2 (make_auth user password) = Inr r2 \<and>
    \<not> (400 \<le> status_code r1 \<and> status_code r1 < 600) \<and>
    \<not> (400 \<le> status_code r2 \<and> status_code r2 < 600) \<and>
    splitlines (content r1) = h1 # ls1 \<and> splitlines (content r2) = h2 # ls2 \<and>
    line_row (lstrip ''# '' h2) = Some fieldnames2 \<and>
    map line_row ls1 = map Some rows1 \<and> [] \<notin> set rows1 \<and>
    map line_row ls2 = map Some rows2 \<and> [] \<notin> set rows2
    \<longrightarrow> get_haproxy_report net (UrlList [u1, u2]) user password =
          Inr (iter_of_list (map (make_row fieldnames2) rows1 @ map (make_row fieldnames2) rows2)) \<and>
        length (map (make_row fieldnames2) rows1 @ map (make_row fieldnames2) rows2) =
          length ls1 + length ls2) \<and>
   (plain_line l \<longrightarrow> line_row l = Some (split_commas [] l) \<and> split_commas [] l \<noteq> [])"
proof (intro conjI impI)
  assume a: "net u (make_auth user password) = Inr r \<and>
    \<not> (400 \<le> status_code r \<and> status_code r < 600) \<and>
    splitlines (content r) = h # ls \<and>
    line_row (lstrip ''# '' h) = Some fieldnames \<and>
    map line_row ls = map Some rows \<and> [] \<notin> set rows"
  then have m: "map (\<lambda>u. net u (make_auth user password)) [u] = map Inr [r]"
    and ok: "\<forall>r\<in>set [r]. \<not> (400 \<le> status_code r \<and> status_code r < 600) \<and> splitlines (content r) \<noteq> []"
    by simp_all
  have "get_haproxy_report net (UrlList [u]) user password = Inr (DictReader (lstrip ''# '' h # ls))"
    using get_haproxy_report_all_ok[where net = net and user = user and password = password
        and us = "[u]" and rs = "[r]", OF _ m ok] a
    by simp
  moreover have "DictReader (lstrip ''# '' h # ls) = iter_of_list (map (make_row fieldnames) rows)"
    using a by (simp add: DictReader_complete_lines filter_nonempty_rows)
  ultimately show "get_haproxy_report net (UrlList [u]) user password =
          Inr (iter_of_list (map (make_row fieldnames) rows))"
    by simp
  from a have "length (map line_row ls) = length (map Some rows)"
    by simp
  then show "length (map (make_row fieldnames) rows) = length ls"
    by simp
  show "\<forall>row\<in>set rows. \<forall>i < length fieldnames.
           distinct fieldnames \<and> length row = length fieldnames
           \<longrightarrow> cols (make_row fieldnames row) (fieldnames ! i) = Some (Some (row ! i))"
    by (simp add: make_row_lookup)
next
  assume a: "net u1 (make_auth user password) = Inr r1 \<and> net u2 (make_auth user password) = Inr r2 \<and>
    \<not> (400 \<le> status_code r1 \<and> status_code r1 < 600) \<and>
    \<not> (400 \<le> status_code r2 \<and> status_code r2 < 600) \<and>
    splitlines (content r1) = h1 # ls1 \<and> splitlines (content r2) = h2 # ls2 \<and>
    line_row (lstrip ''# '' h2) = Some fieldnames2 \<and>
    map line_row ls1 = map Some rows1 \<and> [] \<notin> set rows1 \<and>
    map line_row ls2 = map Some rows2 \<and> [] \<notin> set rows2"
  then have m: "map (\<lambda>u. net u (make_auth user password)) [u1, u2] = map Inr [r1, r2]"
    and ok: "\<forall>r\<in>set [r1, r2]. \<not> (400 \<le> status_code r \<and> status_code r < 600) \<and> splitlines (content r) \<noteq> []"
    by simp_all
  have "get_haproxy_report net (UrlList [u1, u2]) user password =
          Inr (DictReader (lstrip ''# '' h2 # ls1 @ ls2))"
    using get_haproxy_report_all_ok[where net = net and user = user and password = password
        and us = "[u1, u2]" and rs = "[r1, r2]", OF _ m ok] a
    by simp
  moreover have "DictReader (lstrip ''# '' h2 # ls1 @ ls2) =
      iter_of_list (map (make_row fieldnames2) (rows1 @ rows2))"
  proof -
    have "map line_row (ls1 @ ls2) = map Some (rows1 @ rows2)"
      using a by simp
    moreover have "filter (\<lambda>row. row \<noteq> []) (rows1 @ rows2) = rows1 @ rows2"
      using a by (simp add: filter_nonempty_rows)
    ultimately show ?thesis
      using a DictReader_complete_lines[of "lstrip ''# '' h2" fieldnames2 "ls1 @ ls2" "rows1 @ rows2"]
      by simp
  qed
  ultimately show "get_haproxy_report net (UrlList [u1, u2]) user password =
          Inr (iter_of_list (map (make_row fieldnames2) rows1 @ map (make_row fieldnames2) rows2))"
    by simp
  from a have "length (map line_row ls1) = length (map Some rows1)"
    "length (map line_row ls2) = length (map Some rows2)"
    by simp_all
  then show "length (map (make_row fieldnames2) rows1 @ map (make_row fieldnames2) rows2) =
          length ls1 + length ls2"
    by simp
next
  assume "plain_line l"
  then show "line_row l = Some (split_commas [] l)"
    by (rule plain_line_row)
next
  show "split_commas [] l \<noteq> []"
    by (rule split_commas_nonempty)
qed


theorem fetch_yields_rows_in_order_witness:
  "get_haproxy_report example_net (UrlList [''http://lb2/;csv'']) None None =
     Inr (iter_of_list [make_row [''c'', ''d''] [''3'', ''4''], make_row [''c'', ''d''] [''5'', ''6'']]) \<and>
   cols (make_row [''c'', ''d''] [''3'', ''4'']) ''d'' = Some (Some ''4'') \<and>
   get_haproxy_report example_net (UrlList [''http://lb1/;csv'', ''http://lb2/;csv'']) None None =
     Inr (iter_of_list [make_row [''c'', ''d''] [''1'', ''2''], make_row [''c'', ''d''] [''3'', ''4''],
                        make_row [''c'', ''d''] [''5'', ''6'']])"
proof -
  let ?r1 = "\<lparr>status_code = 200, content = ''# a,b\<newline>1,2\<newline>''\<rparr>"
  let ?r2 = "\<lparr>status_code = 200, content = ''# c,d\<newline>3,4\<newline>5,6\<newline>''\<rparr>"
  have n: "example_net ''http://lb1/;csv'' (make_auth None None) = Inr ?r1"
    "example_net ''http://lb2/;csv'' (make_auth None None) = Inr ?r2"
    by (simp_all add: example_net_def)
  note t = fetch_yields_rows_in_order[where net = example_net and user = None and password = None
      and u = "''http://lb2/;csv''" and r = ?r2 and h = "''# c,d''" and ls = "[''3,4'', ''5,6'']"
      and fieldnames = "[''c'', ''d'']" and rows = "[[''3'', ''4''], [''5'', ''6'']]"
      and ?u1.0 = "''http://lb1/;csv''" and ?u2.0 = "''http://lb2/;csv''" and ?r1.0 = ?r1 and ?r2.0 = ?r2
      and ?h1.0 = "''# a,b''" and ?ls1.0 = "[''1,2'']" and ?h2.0 = "''# c,d''"
      and ?ls2.0 = "[''3,4'', ''5,6'']" and ?fieldnames2.0 = "[''c'', ''d'']"
      and ?rows1.0 = "[[''1'', ''2'']]" and ?rows2.0 = "[[''3'', ''4''], [''5'', ''6'']]"
      and l = "''3,4''"]
  have a: "get_haproxy_report example_net (UrlList [''http://lb2/;csv'']) None None =
     Inr (iter_of_list [make_row [''c'', ''d''] [''3'', ''4''], make_row [''c'', ''d''] [''5'', ''6'']])"
    using t[THEN conjunct1] n
    by (simp add: example_net_lines example_net_headers example_net_rows)
  have b: "cols (make_row [''c'', ''d''] [''3'', ''4'']) ''d'' = Some (Some ''4'')"
    using t[THEN conjunct1] n
    by (simp add: example_net_lines example_net_headers example_net_rows All_less_Suc)
  have c: "get_haproxy_report example_net (UrlList [''http://lb1/;csv'', ''http://lb2/;csv'']) None None =
     Inr (iter_of_list [make_row [''c'', ''d''] [''1'', ''2''], make_row [''c'', ''d''] [''3'', ''4''],
                        make_row [''c'', ''d''] [''5'', ''6'']])"
    using t[THEN conjunct2, THEN conjunct1] n
    by (simp add: example_net_lines example_net_headers example_net_rows)
  from a b c show ?thesis by simp
qed


lemma fetch_loop_http_error:
  assumes "u \<in> set us" "net u auth = Inr r" "400 \<le> status_code r" "status_code r < 600"
  shows "\<exists>e. fetch_loop net auth us st = Inl e"
  using assms
proof (induction us arbitrary: st)
  case Nil
  then show ?case by simp
next
  case (Cons v us)
  obtain aggregated header where st: "st = (aggregated, header)"
    by (cases st)
  show ?case
  proof (cases "v = u")
    case True
    with Cons.prems st show ?thesis
      by (simp add: raise_for_status_def)
  next
    case False
    with Cons.prems have "u \<in> set us" by simp
    from Cons.IH[OF this Cons.prems(2-4)] st show ?thesis
      by (auto split: sum.splits list.splits)
  qed
qed

lemma fetch_loop_first_http_error:
  assumes "map (\<lambda>u. net u auth) pre = map Inr rs"
    and "\<forall>r\<in>set rs. \<not> (400 \<le> status_code r \<and> status_code r < 600) \<and> splitlines (content r) \<noteq> []"
    and "net u auth = Inr r" "400 \<le> status_code r" "status_code r < 600"
  shows "fetch_loop net auth (pre @ u # post) st = Inl (HTTPError (status_code r))"
  using assms(1,2)
proof (induction pre arbitrary: rs st)
  case Nil
  obtain aggregated header where "st = (aggregated, header)"
    by (cases st)
  with assms(3-5) show ?case
    by (simp add: raise_for_status_def)
next
  case (Cons v pre)
  obtain aggregated header where st: "st = (aggregated, header)"
    by (cases st)
  from Cons.prems(1) obtain q rs' where rs: "rs = q # rs'" and q: "net v auth = Inr q"
    and rest: "map (\<lambda>u. net u auth) pre = map Inr rs'"
    by (cases rs) auto
  from Cons.prems(2) rs have ok: "raise_for_status q = Inr ()"
    and ne: "splitlines (content q) \<noteq> []"
    and ok': "\<forall>r\<in>set rs'. \<not> (400 \<le> status_code r \<and> status_code r < 600) \<and> splitlines (content r) \<noteq> []"
    by (auto simp: raise_for_status_def)
  from ne obtain l lines where "splitlines (content q) = l # lines"
    by (cases "splitlines (content q)") auto
  with Cons.IH[OF rest ok'] q ok st show ?case
    by simp
qed

text \<open>
  Claim C7, as amended. \<^verbatim>\<open>raise_for_status\<close> raises for the status codes 400 to 599 only.
  If any endpoint answers with such a status, the Fetcher raises an exception and returns no
  records, and the polling cycle ends with that exception: nothing is sent and no count is
  printed. If the endpoints before it answered without an error status and with a body that
  is not empty, the exception is the \<^verbatim>\<open>HTTPError\<close> of that endpoint.
\<close>

theorem http_error_status_fails_the_cycle:
  assumes "net u (make_auth user password) = Inr r" "400 \<le> status_code r" "status_code r < 600"
  shows "(u \<in> set (urls_of url) \<longrightarrow>
            (\<exists>e. get_haproxy_report net url user password = Inl e \<and>
                 poll_once net url user password host port namespace excludeproxies = ([], Inl e))) \<and>
         (map (\<lambda>u. net u (make_auth user password)) pre = map Inr rs \<and>
          list_all (\<lambda>q. \<not> (400 \<le> status_code q \<and> status_code q < 600) \<and>
                         splitlines (content q) \<noteq> []) rs \<longrightarrow>
            get_haproxy_report net (UrlList (pre @ u # post)) user password =
              Inl (HTTPError (status_code r)))"
proof (intro conjI impI)
  assume "u \<in> set (urls_of url)"
  from fetch_loop_http_error[where net = net and auth = "make_auth user password"
      and st = "([], None)", OF this assms]
  obtain e where "fetch_loop net (make_auth user password) (urls_of url) ([], None) = Inl e"
    by blast
  then have "get_haproxy_report net url user password = Inl e"
    by (simp add: get_haproxy_report_def urls_of_def)
  then show "\<exists>e. get_haproxy_report net url user password = Inl e \<and>
                 poll_once net url user password host port namespace excludeproxies = ([], Inl e)"
    by (simp add: poll_once_def)
next
  assume a: "map (\<lambda>u. net u (make_auth user password)) pre = map Inr rs \<and>
          list_all (\<lambda>q. \<not> (400 \<le> status_code q \<and> status_code q < 600) \<and>
                         splitlines (content q) \<noteq> []) rs"
  then have m: "map (\<lambda>u. net u (make_auth user password)) pre = map Inr rs"
    and ok: "\<forall>r\<in>set rs. \<not> (400 \<le> status_code r \<and> status_code r < 600) \<and> splitlines (content r) \<noteq> []"
    by (simp_all add: list_all_iff)
  show "get_haproxy_report net (UrlList (pre @ u # post)) user password =
              Inl (HTTPError (status_code r))"
    using fetch_loop_first_http_error[where net = net and auth = "make_auth user password"
        and pre = pre and rs = rs and u = u and r = r and post = post and st = "([], None)",
        OF m ok assms]
    by (simp add: get_haproxy_report_def)
qed

theorem http_error_status_fails_the_cycle_witness:
  "get_haproxy_report example_net (UrlList [''http://lb1/;csv'', ''http://lb4/;csv'', ''http://lb2/;csv''])
      None None = Inl (HTTPError 503) \<and>
   poll_once example_net (UrlList [''http://lb1/;csv'', ''http://lb4/;csv'', ''http://lb2/;csv''])
      None None ''127.0.0.1'' 8125 ''haproxy'' False = ([], Inl (HTTPError 503))"
proof -
  let ?r1 = "\<lparr>status_code = 200, content = ''# a,b\<newline>1,2\<newline>''\<rparr>"
  let ?r4 = "\<lparr>status_code = 503, content = ''Service Unavailable''\<rparr>"
  let ?url = "UrlList [''http://lb1/;csv'', ''http://lb4/;csv'', ''http://lb2/;csv'']"
  have n: "example_net ''http://lb4/;csv'' (make_auth None None) = Inr ?r4"
    and s: "400 \<le> status_code ?r4" "status_code ?r4 < 600"
    by (simp_all add: example_net_def)
  note t = http_error_status_fails_the_cycle[where net = example_net and user = None
      and password = None, OF n s, where url = ?url and pre = "[''http://lb1/;csv'']"
      and rs = "[?r1]" and post = "[''http://lb2/;csv'']" and host = "''127.0.0.1''"
      and port = 8125 and namespace = "''haproxy''" and excludeproxies = False]
  have b: "get_haproxy_report example_net ?url None None = Inl (HTTPError 503)"
    using t[THEN conjunct2]
    by (simp add: example_net_def example_net_lines)
  from t[THEN conjunct1] obtain e where "get_haproxy_report example_net ?url None None = Inl e"
    and "poll_once example_net ?url None None ''127.0.0.1'' 8125 ''haproxy'' False = ([], Inl e)"
    by (auto simp: urls_of_def)
  with b show ?thesis by simp
qed

text \<open>
  The claim as stated fails for a status that is neither 2xx nor an error status: the
  endpoint answers 300 with a header line only, the Fetcher returns an empty record
  sequence without an exception, the Reporter runs, and the cycle prints that it reported
  0 stats.
\<close>

theorem status_300_is_not_an_error_counterexample:
  "example_net ''http://lb3/;csv'' (make_auth None None) =
     Inr \<lparr>status_code = 300, content = ''# pxname,svname,scur\<newline>''\<rparr> \<and>
   get_haproxy_report example_net (UrlStr ''http://lb3/;csv'') None None = Inr Stop \<and>
   poll_once example_net (UrlStr ''http://lb3/;csv'') None None ''127.0.0.1'' 8125 ''haproxy'' False =
     ([], Inr ''Reported 0 stats'')"
  by (simp add: poll_once_def report_to_statsd_def get_haproxy_report_def make_auth_def
      example_net_def raise_for_status_def example_net_lines example_net_headers
      DictReader_def csv_reader_def parse_reset_def parse_process_char_def start_field_def
      is_eol_def end_of_line_def parse_save_field_def parse_add_char_def field_limit_def
      with_state_def dec.simps)

text \<open>
  Claim C9. A single URL given as a string is fetched as the list of that one URL.
\<close>

theorem single_url_is_one_element_list:
  "get_haproxy_report net (UrlStr u) user password =
     get_haproxy_report net (UrlList [u]) user password"
  by (simp add: get_haproxy_report_def)

theorem single_url_is_one_element_list_witness:
  "get_haproxy_report example_net (UrlStr ''http://lb1/;csv'') (Some ''admin'') (Some ''secret'') =
     get_haproxy_report example_net (UrlList [''http://lb1/;csv'']) (Some ''admin'') (Some ''secret'')"
  by (rule single_url_is_one_element_list)

end
